theory Spec2Isabelle
  imports Main "HOL-Library.Word" "HOL-Library.Multiset"
begin

section \<open>Strings of the host language\<close>

text \<open>
  A JavaScript string is a sequence of 16-bit code units; \<open>length\<close> counts code units and
  the regular expressions of \<^verbatim>\<open>src/main.ts\<close> (written without the \<^verbatim>\<open>u\<close> flag) classify
  single code units. A line is therefore a list of 16-bit words. \<open>js\<close> embeds an ASCII
  literal, so that \<open>js ''- a''\<close> is the string \<^verbatim>\<open>"- a"\<close>.
\<close>

type_synonym codeunit = "16 word"

type_synonym jsstring = "codeunit list"

definition js :: "string \<Rightarrow> jsstring" where
  "js s = map (\<lambda>c. of_nat (of_char c)) s"

definition TAB :: codeunit where
  "TAB = 0x0009"

text \<open>
  The character class \<^verbatim>\<open>.\<close> (no \<^verbatim>\<open>s\<close> flag) excludes the four line terminators of
  ECMAScript: LF, CR, U+2028 and U+2029.
\<close>

definition isLineTerminator :: "codeunit \<Rightarrow> bool" where
  "isLineTerminator c \<longleftrightarrow> c = 0x000A \<or> c = 0x000D \<or> c = 0x2028 \<or> c = 0x2029"

definition dotClass :: "codeunit \<Rightarrow> bool" where
  "dotClass c \<longleftrightarrow> \<not> isLineTerminator c"

text \<open>
  The character class \<^verbatim>\<open>\s\<close> is ECMAScript's WhiteSpace together with LineTerminator:
  TAB, VT, FF, SP, NBSP, U+1680, U+2000 to U+200A, U+202F, U+205F, U+3000, U+FEFF (the
  byte order mark) and the four line terminators.
\<close>

definition whiteSpaceClass :: "codeunit \<Rightarrow> bool" where
  "whiteSpaceClass c \<longleftrightarrow>
     c = 0x0009 \<or> c = 0x000B \<or> c = 0x000C \<or> c = 0x0020 \<or> c = 0x00A0 \<or> c = 0x1680 \<or>
     (0x2000 \<le> c \<and> c \<le> 0x200A) \<or> c = 0x202F \<or> c = 0x205F \<or> c = 0x3000 \<or> c = 0xFEFF \<or>
     isLineTerminator c"

section \<open>The regular expression of \<open>processLine\<close>\<close>

text \<open>
  \<^verbatim>\<open>/^(\s*)(-|\*|\+)(\s+)(.*)/\<close> is run by a backtracking matcher. Each piece of the
  pattern maps the remaining input to the list of its possible matches, paired with the
  input left over, in the order in which the matcher tries them: a greedy quantifier
  tries the longest run first and gives characters back one at a time, an alternation
  tries its branches from left to right. The pattern is anchored by \<^verbatim>\<open>^\<close> and has no
  \<^verbatim>\<open>m\<close> or \<^verbatim>\<open>g\<close> flag, so \<^verbatim>\<open>String.prototype.match\<close> tries position 0 only and returns
  the first complete match, or \<^verbatim>\<open>null\<close>.
\<close>

fun greedyStar :: "(codeunit \<Rightarrow> bool) \<Rightarrow> jsstring \<Rightarrow> (jsstring \<times> jsstring) list" where
  "greedyStar p [] = [([], [])]"
| "greedyStar p (c # cs) =
     (if p c then map (\<lambda>(m, r). (c # m, r)) (greedyStar p cs) else []) @ [([], c # cs)]"

definition greedyPlus :: "(codeunit \<Rightarrow> bool) \<Rightarrow> jsstring \<Rightarrow> (jsstring \<times> jsstring) list" where
  "greedyPlus p s =
     (case s of
        [] \<Rightarrow> []
      | c # cs \<Rightarrow> if p c then map (\<lambda>(m, r). (c # m, r)) (greedyStar p cs) else [])"

definition markers :: "codeunit list" where
  \<comment> \<open>the branches of \<^verbatim>\<open>(-|\*|\+)\<close>, left to right\<close>
  "markers = [0x002D, 0x002A, 0x002B]"

definition alternation :: "codeunit list \<Rightarrow> jsstring \<Rightarrow> (codeunit \<times> jsstring) list" where
  "alternation alts s =
     (case s of
        [] \<Rightarrow> []
      | c # cs \<Rightarrow> map (\<lambda>a. (a, cs)) (filter (\<lambda>a. a = c) alts))"

text \<open>The four capture groups, named as the destructuring in \<open>processLine\<close> names them.\<close>

record LineMatch =
  indent :: jsstring
  bullet :: codeunit
  space :: jsstring
  content :: jsstring

definition regexRuns :: "jsstring \<Rightarrow> LineMatch list" where
  "regexRuns lineText =
     [\<lparr>indent = i, bullet = b, space = sp, content = ct\<rparr>.
        (i, r1) \<leftarrow> greedyStar whiteSpaceClass lineText,
        (b, r2) \<leftarrow> alternation markers r1,
        (sp, r3) \<leftarrow> greedyPlus whiteSpaceClass r2,
        (ct, r4) \<leftarrow> greedyStar dotClass r3]"

definition listMatch :: "jsstring \<Rightarrow> LineMatch option" where
  "listMatch lineText = (case regexRuns lineText of [] \<Rightarrow> None | m # _ \<Rightarrow> Some m)"

text \<open>
  The tail \<^verbatim>\<open>(\s+)(.*)\<close> of the pattern on its own, once the indentation \<open>i\<close> and the
  marker \<open>b\<close> are fixed; used to reason about \<open>regexRuns\<close>.
\<close>

definition afterMarker :: "codeunit \<Rightarrow> jsstring \<Rightarrow> jsstring \<Rightarrow> LineMatch list" where
  "afterMarker b i r2 =
     [\<lparr>indent = i, bullet = b, space = sp, content = ct\<rparr>.
        (sp, r3) \<leftarrow> greedyPlus whiteSpaceClass r2,
        (ct, r4) \<leftarrow> greedyStar dotClass r3]"

section \<open>Settings\<close>

record CustomBulletsSettings =
  level1 :: jsstring
  level2 :: jsstring
  level3 :: jsstring
  level4 :: jsstring
  level5 :: jsstring
  enabled :: bool

definition DEFAULT_SETTINGS :: CustomBulletsSettings where
  "DEFAULT_SETTINGS =
     \<lparr>level1 = [0x2022], level2 = [0x25E6], level3 = [0x25AA], level4 = [0x25AB],
      level5 = [0x2043], enabled = True\<rparr>"

section \<open>\<open>processLine\<close>\<close>

text \<open>
  The nesting level. Lengths of strings are far below \<open>2 ^ 53\<close>, so the floating-point
  numbers of the source are exact here and \<^verbatim>\<open>Math.floor(spaceCount / 2)\<close> is \<open>div 2\<close> on
  natural numbers. The empty string is falsy, so \<^verbatim>\<open>if (indent)\<close> tests for a non-empty
  prefix.
\<close>

definition calcLevel :: "jsstring \<Rightarrow> nat" where
  "calcLevel ind =
     (if ind \<noteq> [] then
        (let tabCount = length (filter (\<lambda>c. c = TAB) ind);
             spaceCount = length (filter (\<lambda>c. c \<noteq> TAB) ind);
             spaceLevel = spaceCount div 2
         in 1 + tabCount + spaceLevel)
      else 1)"

text \<open>
  The \<^verbatim>\<open>switch\<close> over the level: which label is taken, and what the taken branch
  assigns to \<open>customBullet\<close>.
\<close>

datatype SwitchBranch = Case1 | Case2 | Case3 | Case4 | Default

definition switchLevel :: "nat \<Rightarrow> SwitchBranch" where
  "switchLevel level =
     (if level = 1 then Case1
      else if level = 2 then Case2
      else if level = 3 then Case3
      else if level = 4 then Case4
      else Default)"

fun branchBullet :: "CustomBulletsSettings \<Rightarrow> SwitchBranch \<Rightarrow> jsstring" where
  "branchBullet settings Case1 = level1 settings"
| "branchBullet settings Case2 = level2 settings"
| "branchBullet settings Case3 = level3 settings"
| "branchBullet settings Case4 = level4 settings"
| "branchBullet settings Default = level5 settings"

definition customBullet :: "CustomBulletsSettings \<Rightarrow> nat \<Rightarrow> jsstring" where
  "customBullet settings level = branchBullet settings (switchLevel level)"

text \<open>
  \<open>processLine\<close> receives the host's line object \<open>line\<close> and its text \<open>lineText\<close>; it
  never reads \<open>lineIdx\<close> or \<open>cursor\<close>, which are left out. It returns the line object
  itself when the plugin is disabled or the pattern does not match, and a new string
  otherwise.
\<close>

datatype 'l Processed = is_SameLine: SameLine 'l | is_NewLine: NewLine jsstring

definition processLine :: "CustomBulletsSettings \<Rightarrow> 'l \<Rightarrow> jsstring \<Rightarrow> 'l Processed" where
  "processLine settings line lineText =
     (if \<not> enabled settings then SameLine line
      else case listMatch lineText of
        None \<Rightarrow> SameLine line
      | Some m \<Rightarrow>
          (let level = calcLevel (indent m);
               glyph = customBullet settings level
           in NewLine (indent m @ glyph @ space m @ content m)))"

text \<open>
  The contract of the specification, \<open>rewrite(lineText, glyphs, enabled)\<close>: the line
  object is the text of the line, and the flag is the \<open>enabled\<close> field of the settings.
\<close>

definition rewrite :: "jsstring \<Rightarrow> CustomBulletsSettings \<Rightarrow> bool \<Rightarrow> jsstring" where
  "rewrite lineText glyphs on =
     (case processLine (glyphs\<lparr>enabled := on\<rparr>) lineText lineText of
        SameLine l \<Rightarrow> l
      | NewLine t \<Rightarrow> t)"

text \<open>The value of the local variable \<open>level\<close> for a line, when the line matches.\<close>

definition lineLevel :: "jsstring \<Rightarrow> nat option" where
  "lineLevel lineText = map_option (\<lambda>m. calcLevel (indent m)) (listMatch lineText)"

section \<open>The settings tab\<close>

text \<open>
  Each of the five text fields of \<open>CustomBulletsSettingTab.display\<close> stores
  \<^verbatim>\<open>value || '<default glyph>'\<close> into its field of the settings. The value of a text
  field is a string, and the only falsy string is the empty one. Saving the settings and
  refreshing the view are the host's work and are not modelled.
\<close>

definition orElse :: "jsstring \<Rightarrow> jsstring \<Rightarrow> jsstring" where
  "orElse v d = (if v = [] then d else v)"

definition onChangeLevel1 :: "CustomBulletsSettings \<Rightarrow> jsstring \<Rightarrow> CustomBulletsSettings" where
  "onChangeLevel1 settings v = settings\<lparr>level1 := orElse v [0x2022]\<rparr>"

definition onChangeLevel2 :: "CustomBulletsSettings \<Rightarrow> jsstring \<Rightarrow> CustomBulletsSettings" where
  "onChangeLevel2 settings v = settings\<lparr>level2 := orElse v [0x25E6]\<rparr>"

definition onChangeLevel3 :: "CustomBulletsSettings \<Rightarrow> jsstring \<Rightarrow> CustomBulletsSettings" where
  "onChangeLevel3 settings v = settings\<lparr>level3 := orElse v [0x25AA]\<rparr>"

definition onChangeLevel4 :: "CustomBulletsSettings \<Rightarrow> jsstring \<Rightarrow> CustomBulletsSettings" where
  "onChangeLevel4 settings v = settings\<lparr>level4 := orElse v [0x25AB]\<rparr>"

definition onChangeLevel5 :: "CustomBulletsSettings \<Rightarrow> jsstring \<Rightarrow> CustomBulletsSettings" where
  "onChangeLevel5 settings v = settings\<lparr>level5 := orElse v [0x2043]\<rparr>"

section \<open>Patterns of the specification\<close>

text \<open>
  The detection pattern without its capture of the content,
  \<^verbatim>\<open>^I*(-|\*|\+)\s+\<close>, for a class \<open>I\<close> of indentation characters, run by the same
  matcher. With \<open>I\<close> the class \<^verbatim>\<open>\s\<close> this is the pattern \<^verbatim>\<open>^\s*(-|\*|\+)\s+\<close>; with
  \<open>I\<close> the class \<open>spaceOrTab\<close> it is the pattern whose indentation is a run of spaces and
  tabs only.
\<close>

definition spaceOrTab :: "codeunit \<Rightarrow> bool" where
  "spaceOrTab c \<longleftrightarrow> c = 0x0020 \<or> c = TAB"

definition matchesPattern :: "(codeunit \<Rightarrow> bool) \<Rightarrow> jsstring \<Rightarrow> bool" where
  "matchesPattern I lineText \<longleftrightarrow>
     [(b, sp). (i, r1) \<leftarrow> greedyStar I lineText,
               (b, r2) \<leftarrow> alternation markers r1,
               (sp, r3) \<leftarrow> greedyPlus whiteSpaceClass r2] \<noteq> []"

text \<open>
  A glyph that cannot be mistaken for the start of a list item: it is not empty and its
  first code unit is neither white space nor one of the three markers.
\<close>

definition stableGlyph :: "jsstring \<Rightarrow> bool" where
  "stableGlyph g = (case g of [] \<Rightarrow> False | c # _ \<Rightarrow> \<not> whiteSpaceClass c \<and> c \<notin> set markers)"

definition stableTable :: "CustomBulletsSettings \<Rightarrow> bool" where
  "stableTable glyphs \<longleftrightarrow>
     stableGlyph (level1 glyphs) \<and> stableGlyph (level2 glyphs) \<and> stableGlyph (level3 glyphs) \<and>
     stableGlyph (level4 glyphs) \<and> stableGlyph (level5 glyphs)"

text \<open>The input constraint of the contract: a single line holds no line terminator.\<close>

definition singleLine :: "jsstring \<Rightarrow> bool" where
  "singleLine lineText \<longleftrightarrow> list_all dotClass lineText"

section \<open>What the matcher returns\<close>

lemmas class_defs =
  js_def TAB_def markers_def whiteSpaceClass_def dotClass_def isLineTerminator_def spaceOrTab_def

lemma marker_not_whiteSpace: "c \<in> set markers \<Longrightarrow> \<not> whiteSpaceClass c"
  by (auto simp: markers_def whiteSpaceClass_def isLineTerminator_def)

lemma marker_not_spaceOrTab: "c \<in> set markers \<Longrightarrow> \<not> spaceOrTab c"
  by (auto simp: markers_def spaceOrTab_def TAB_def)

text \<open>
  A greedy star tries the longest run first; every later attempt leaves input that still
  starts inside the run.
\<close>

lemma greedyStar_shape:
  "\<exists>rest. greedyStar p s = (takeWhile p s, dropWhile p s) # rest \<and>
          (\<forall>(m, r) \<in> set rest. r \<noteq> [] \<and> p (hd r))"
proof (induction s)
  case Nil
  show ?case by simp
next
  case (Cons c cs)
  then obtain rest where r: "greedyStar p cs = (takeWhile p cs, dropWhile p cs) # rest"
    and t: "\<forall>(m, r) \<in> set rest. r \<noteq> [] \<and> p (hd r)" by blast
  show ?case
  proof (cases "p c")
    case True
    have "greedyStar p (c # cs) =
        (takeWhile p (c # cs), dropWhile p (c # cs)) #
        (map (\<lambda>(m, r). (c # m, r)) rest @ [([], c # cs)])"
      using True r by simp
    moreover have "\<forall>(m, r) \<in> set (map (\<lambda>(m, r). (c # m, r)) rest @ [([], c # cs)]).
        r \<noteq> [] \<and> p (hd r)"
      using True t by auto
    ultimately show ?thesis by blast
  next
    case False
    then show ?thesis by simp
  qed
qed

text \<open>
  So when what follows the star fails on any input that starts inside the run, only the
  longest run counts.
\<close>

lemma greedyStar_commit:
  assumes "\<And>i r. r \<noteq> [] \<Longrightarrow> p (hd r) \<Longrightarrow> F i r = []"
  shows "concat (map (\<lambda>(i, r). F i r) (greedyStar p s)) = F (takeWhile p s) (dropWhile p s)"
proof -
  obtain rest where g: "greedyStar p s = (takeWhile p s, dropWhile p s) # rest"
    and t: "\<forall>(m, r) \<in> set rest. r \<noteq> [] \<and> p (hd r)"
    using greedyStar_shape [of p s] by blast
  have "concat (map (\<lambda>(i, r). F i r) rest) = []"
    using t assms by (fastforce simp: concat_eq_Nil_conv)
  then show ?thesis by (simp add: g)
qed

lemma alternation_markers:
  "alternation markers s =
     (case s of [] \<Rightarrow> [] | c # cs \<Rightarrow> if c \<in> set markers then [(c, cs)] else [])"
  by (auto simp: alternation_def markers_def split: list.splits)

lemma alternation_inside_run:
  assumes "\<And>c. c \<in> set markers \<Longrightarrow> \<not> p c" and "r \<noteq> []" and "p (hd r)"
  shows "alternation markers r = []"
  using assms by (cases r) (auto simp: alternation_markers)

lemma greedyPlus_Nil: "greedyPlus p s = [] \<longleftrightarrow> takeWhile p s = []"
  using greedyStar_shape [of p "tl s"] by (cases s) (auto simp: greedyPlus_def)

lemma greedyPlus_Cons:
  "takeWhile p s \<noteq> [] \<Longrightarrow> \<exists>rest. greedyPlus p s = (takeWhile p s, dropWhile p s) # rest"
  using greedyStar_shape [of p "tl s"]
  by (cases s) (auto simp: greedyPlus_def split: if_splits)

lemma afterMarker_Nil: "takeWhile whiteSpaceClass r2 = [] \<Longrightarrow> afterMarker b i r2 = []"
  using greedyPlus_Nil [of whiteSpaceClass r2] by (simp add: afterMarker_def)

lemma afterMarker_Cons:
  assumes "takeWhile whiteSpaceClass r2 \<noteq> []"
  shows "\<exists>rest. afterMarker b i r2 =
     \<lparr>indent = i, bullet = b, space = takeWhile whiteSpaceClass r2,
      content = takeWhile dotClass (dropWhile whiteSpaceClass r2)\<rparr> # rest"
proof -
  obtain rest1 where p: "greedyPlus whiteSpaceClass r2 =
      (takeWhile whiteSpaceClass r2, dropWhile whiteSpaceClass r2) # rest1"
    using greedyPlus_Cons [OF assms] by blast
  obtain rest2 where s: "greedyStar dotClass (dropWhile whiteSpaceClass r2) =
      (takeWhile dotClass (dropWhile whiteSpaceClass r2),
       dropWhile dotClass (dropWhile whiteSpaceClass r2)) # rest2"
    using greedyStar_shape [of dotClass "dropWhile whiteSpaceClass r2"] by blast
  show ?thesis by (simp add: afterMarker_def p s)
qed

lemma regexRuns_first:
  "regexRuns s =
     (case dropWhile whiteSpaceClass s of
        [] \<Rightarrow> []
      | c # cs \<Rightarrow> if c \<in> set markers then afterMarker c (takeWhile whiteSpaceClass s) cs else [])"
proof -
  let ?F = "\<lambda>i r1. concat (map (\<lambda>(b, r2). afterMarker b i r2) (alternation markers r1))"
  have "regexRuns s = concat (map (\<lambda>(i, r1). ?F i r1) (greedyStar whiteSpaceClass s))"
    by (simp add: regexRuns_def afterMarker_def)
  also have "\<dots> = ?F (takeWhile whiteSpaceClass s) (dropWhile whiteSpaceClass s)"
    by (rule greedyStar_commit)
      (simp add: alternation_inside_run [of whiteSpaceClass] marker_not_whiteSpace)
  finally show ?thesis
    by (cases "dropWhile whiteSpaceClass s")
      (simp_all add: alternation_markers del: dropWhile_eq_Nil_conv)
qed

text \<open>
  The first match, in closed form: the indentation is the whole leading run of white
  space, the separator the whole run after the marker, and the content runs up to the
  first line terminator.
\<close>

lemma listMatch_eq:
  "listMatch s =
     (case dropWhile whiteSpaceClass s of
        [] \<Rightarrow> None
      | c # cs \<Rightarrow>
          if c \<in> set markers \<and> takeWhile whiteSpaceClass cs \<noteq> [] then
            Some \<lparr>indent = takeWhile whiteSpaceClass s, bullet = c,
                  space = takeWhile whiteSpaceClass cs,
                  content = takeWhile dotClass (dropWhile whiteSpaceClass cs)\<rparr>
          else None)"
proof (cases "dropWhile whiteSpaceClass s")
  case Nil
  then show ?thesis by (simp add: listMatch_def regexRuns_first del: dropWhile_eq_Nil_conv)
next
  case (Cons c cs)
  show ?thesis
  proof (cases "c \<in> set markers \<and> takeWhile whiteSpaceClass cs \<noteq> []")
    case True
    then obtain rest where "afterMarker c (takeWhile whiteSpaceClass s) cs =
        \<lparr>indent = takeWhile whiteSpaceClass s, bullet = c, space = takeWhile whiteSpaceClass cs,
         content = takeWhile dotClass (dropWhile whiteSpaceClass cs)\<rparr> # rest"
      using afterMarker_Cons by blast
    with True Cons show ?thesis by (simp add: listMatch_def regexRuns_first)
  next
    case False
    with Cons show ?thesis
      by (auto simp: listMatch_def regexRuns_first afterMarker_Nil)
  qed
qed

lemma listMatch_SomeD:
  assumes "listMatch s = Some m"
  shows "\<exists>c cs. dropWhile whiteSpaceClass s = c # cs \<and> c \<in> set markers \<and>
           takeWhile whiteSpaceClass cs \<noteq> [] \<and>
           m = \<lparr>indent = takeWhile whiteSpaceClass s, bullet = c,
                space = takeWhile whiteSpaceClass cs,
                content = takeWhile dotClass (dropWhile whiteSpaceClass cs)\<rparr>"
  using assms unfolding listMatch_eq
  by (cases "dropWhile whiteSpaceClass s") (auto split: if_splits simp del: dropWhile_eq_Nil_conv)

lemma listMatch_indent: "listMatch s = Some m \<Longrightarrow> list_all whiteSpaceClass (indent m)"
  by (auto dest!: listMatch_SomeD simp: list_all_iff dest: set_takeWhileD)

lemma listMatch_space:
  "listMatch s = Some m \<Longrightarrow> space m \<noteq> [] \<and> list_all whiteSpaceClass (space m)"
  by (auto dest!: listMatch_SomeD simp: list_all_iff dest: set_takeWhileD)

lemma listMatch_bullet: "listMatch s = Some m \<Longrightarrow> bullet m \<in> set markers"
  by (auto dest!: listMatch_SomeD)

lemma listMatch_content: "listMatch s = Some m \<Longrightarrow> list_all dotClass (content m)"
  by (auto dest!: listMatch_SomeD simp: list_all_iff dest: set_takeWhileD)

text \<open>
  The line is its four captures in order, followed by whatever \<^verbatim>\<open>.*\<close> could not take:
  nothing, or a rest that begins with a line terminator.
\<close>

lemma listMatch_decompose:
  assumes "listMatch s = Some m"
  shows "\<exists>rest. s = indent m @ bullet m # space m @ content m @ rest \<and>
           (rest = [] \<or> isLineTerminator (hd rest))"
proof -
  obtain c cs where d: "dropWhile whiteSpaceClass s = c # cs"
    and m: "m = \<lparr>indent = takeWhile whiteSpaceClass s, bullet = c,
                 space = takeWhile whiteSpaceClass cs,
                 content = takeWhile dotClass (dropWhile whiteSpaceClass cs)\<rparr>"
    using listMatch_SomeD [OF assms] by blast
  let ?r = "dropWhile whiteSpaceClass cs"
  let ?rest = "dropWhile dotClass ?r"
  have "s = takeWhile whiteSpaceClass s @ dropWhile whiteSpaceClass s" by simp
  also have "\<dots> = takeWhile whiteSpaceClass s @ c # (takeWhile whiteSpaceClass cs @ ?r)"
    unfolding d by simp
  also have "?r = takeWhile dotClass ?r @ ?rest" by simp
  finally have "s = indent m @ bullet m # space m @ content m @ ?rest"
    by (simp add: m)
  moreover have "?rest = [] \<or> isLineTerminator (hd ?rest)"
    using hd_dropWhile [of dotClass ?r] by (auto simp: dotClass_def)
  ultimately show ?thesis by blast
qed

lemma listMatch_singleLine:
  assumes "listMatch s = Some m" and "singleLine s"
  shows "s = indent m @ bullet m # space m @ content m"
proof -
  obtain rest where s: "s = indent m @ bullet m # space m @ content m @ rest"
    and r: "rest = [] \<or> isLineTerminator (hd rest)"
    using listMatch_decompose [OF assms(1)] by blast
  have "rest = []"
  proof (rule ccontr)
    assume n: "rest \<noteq> []"
    then have "hd rest \<in> set s" by (subst s) simp
    then have "dotClass (hd rest)" using assms(2) by (simp add: singleLine_def list_all_iff)
    then show False using r n by (simp add: dotClass_def)
  qed
  then show ?thesis using s by simp
qed

section \<open>The patterns of the specification, in closed form\<close>

lemma matchesPattern_eq:
  assumes "\<And>c. c \<in> set markers \<Longrightarrow> \<not> I c"
  shows "matchesPattern I s \<longleftrightarrow>
     (case dropWhile I s of
        [] \<Rightarrow> False
      | c # cs \<Rightarrow> c \<in> set markers \<and> takeWhile whiteSpaceClass cs \<noteq> [])"
proof -
  let ?F = "\<lambda>(i::jsstring) r1. concat (map (\<lambda>(b, r2). map (\<lambda>(sp, r3). (b, sp))
      (greedyPlus whiteSpaceClass r2)) (alternation markers r1))"
  have "matchesPattern I s \<longleftrightarrow> concat (map (\<lambda>(i, r1). ?F i r1) (greedyStar I s)) \<noteq> []"
    unfolding matchesPattern_def by simp
  also have "concat (map (\<lambda>(i, r1). ?F i r1) (greedyStar I s)) = ?F (takeWhile I s) (dropWhile I s)"
    by (rule greedyStar_commit) (simp add: alternation_inside_run [of I] assms)
  finally show ?thesis
    by (cases "dropWhile I s")
      (simp_all add: alternation_markers greedyPlus_Nil del: dropWhile_eq_Nil_conv)
qed

text \<open>
  The same pattern read as a shape of the line: a run of indentation characters, one
  marker, a non-empty run of white space, and any rest.
\<close>

lemma matchesPattern_shape:
  assumes "\<And>c. c \<in> set markers \<Longrightarrow> \<not> I c"
  shows "matchesPattern I s \<longleftrightarrow>
     (\<exists>i b sp rest. s = i @ b # sp @ rest \<and> list_all I i \<and> b \<in> set markers \<and>
        sp \<noteq> [] \<and> list_all whiteSpaceClass sp)"
proof
  have eq: "matchesPattern I s \<longleftrightarrow>
     (case dropWhile I s of
        [] \<Rightarrow> False
      | c # cs \<Rightarrow> c \<in> set markers \<and> takeWhile whiteSpaceClass cs \<noteq> [])"
    using assms by (rule matchesPattern_eq)
  assume "matchesPattern I s"
  then obtain c cs where d: "dropWhile I s = c # cs" and c: "c \<in> set markers"
    and w: "takeWhile whiteSpaceClass cs \<noteq> []"
    unfolding eq by (cases "dropWhile I s") (auto simp del: dropWhile_eq_Nil_conv)
  have "s = takeWhile I s @ dropWhile I s" by simp
  then have "s = takeWhile I s @ c # takeWhile whiteSpaceClass cs @ dropWhile whiteSpaceClass cs"
    unfolding d by simp
  moreover have "list_all I (takeWhile I s)"
    by (auto simp: list_all_iff dest: set_takeWhileD)
  moreover have "list_all whiteSpaceClass (takeWhile whiteSpaceClass cs)"
    by (auto simp: list_all_iff dest: set_takeWhileD)
  ultimately show "\<exists>i b sp rest. s = i @ b # sp @ rest \<and> list_all I i \<and> b \<in> set markers \<and>
        sp \<noteq> [] \<and> list_all whiteSpaceClass sp"
    using c w by blast
next
  assume "\<exists>i b sp rest. s = i @ b # sp @ rest \<and> list_all I i \<and> b \<in> set markers \<and>
        sp \<noteq> [] \<and> list_all whiteSpaceClass sp"
  then obtain i b sp rest where s: "s = i @ b # sp @ rest" and i: "list_all I i"
    and b: "b \<in> set markers" and sp: "sp \<noteq> []" "list_all whiteSpaceClass sp"
    by blast
  have "dropWhile I s = b # sp @ rest"
    using i assms [OF b] by (simp add: s list_all_iff dropWhile_append2)
  moreover have "takeWhile whiteSpaceClass (sp @ rest) \<noteq> []"
    using sp by (cases sp) auto
  moreover have "matchesPattern I s \<longleftrightarrow>
     (case dropWhile I s of
        [] \<Rightarrow> False
      | c # cs \<Rightarrow> c \<in> set markers \<and> takeWhile whiteSpaceClass cs \<noteq> [])"
    using assms by (rule matchesPattern_eq)
  ultimately show "matchesPattern I s"
    using b by simp
qed

lemma matchesPattern_whiteSpace:
  "matchesPattern whiteSpaceClass s \<longleftrightarrow>
     (case dropWhile whiteSpaceClass s of
        [] \<Rightarrow> False
      | c # cs \<Rightarrow> c \<in> set markers \<and> takeWhile whiteSpaceClass cs \<noteq> [])"
  by (rule matchesPattern_eq) (rule marker_not_whiteSpace)

lemma matchesPattern_spaceOrTab:
  "matchesPattern spaceOrTab s \<longleftrightarrow>
     (case dropWhile spaceOrTab s of
        [] \<Rightarrow> False
      | c # cs \<Rightarrow> c \<in> set markers \<and> takeWhile whiteSpaceClass cs \<noteq> [])"
  by (rule matchesPattern_eq) (rule marker_not_spaceOrTab)

lemma listMatch_iff_pattern: "listMatch s \<noteq> None \<longleftrightarrow> matchesPattern whiteSpaceClass s"
  unfolding listMatch_eq matchesPattern_whiteSpace
  by (cases "dropWhile whiteSpaceClass s") (auto simp del: dropWhile_eq_Nil_conv)

section \<open>Level and glyph\<close>

lemma calcLevel_formula:
  "calcLevel ind =
     1 + length (filter (\<lambda>c. c = TAB) ind) + length (filter (\<lambda>c. c \<noteq> TAB) ind) div 2"
  by (cases "ind = []") (simp_all add: calcLevel_def Let_def)

lemma length_filter_mset: "mset p = mset q \<Longrightarrow> length (filter P p) = length (filter P q)"
  by (metis mset_filter size_mset)

lemma calcLevel_mset: "mset p = mset q \<Longrightarrow> calcLevel p = calcLevel q"
  unfolding calcLevel_formula
  using length_filter_mset [of p q "\<lambda>c. c = TAB"] length_filter_mset [of p q "\<lambda>c. c \<noteq> TAB"]
  by simp

lemma customBullet_enabled [simp]:
  "customBullet (glyphs\<lparr>enabled := on\<rparr>) level = customBullet glyphs level"
  by (cases "switchLevel level") (simp_all add: customBullet_def)

lemma customBullet_cases:
  "customBullet settings level =
     (if level = 1 then level1 settings else if level = 2 then level2 settings
      else if level = 3 then level3 settings else if level = 4 then level4 settings
      else level5 settings)"
  by (simp add: customBullet_def switchLevel_def)

section \<open>What \<open>processLine\<close> and \<open>rewrite\<close> return\<close>

lemma processLine_Some:
  "enabled settings \<Longrightarrow> listMatch s = Some m \<Longrightarrow>
   processLine settings line s =
     NewLine (indent m @ customBullet settings (calcLevel (indent m)) @ space m @ content m)"
  by (simp add: processLine_def Let_def)

lemma processLine_None: "listMatch s = None \<Longrightarrow> processLine settings line s = SameLine line"
  by (simp add: processLine_def)

lemma processLine_disabled: "\<not> enabled settings \<Longrightarrow> processLine settings line s = SameLine line"
  by (simp add: processLine_def)

lemma rewrite_Some:
  "listMatch s = Some m \<Longrightarrow>
   rewrite s glyphs True =
     indent m @ customBullet glyphs (calcLevel (indent m)) @ space m @ content m"
  by (simp add: rewrite_def processLine_Some)

lemma rewrite_None: "listMatch s = None \<Longrightarrow> rewrite s glyphs on = s"
  by (simp add: rewrite_def processLine_None)

lemma rewrite_disabled: "rewrite s glyphs False = s"
  by (simp add: rewrite_def processLine_disabled)

text \<open>
  After a run of white space, a glyph that starts with neither white space nor a marker
  stops the pattern.
\<close>

lemma listMatch_stableGlyph:
  assumes "list_all whiteSpaceClass i" and "stableGlyph g"
  shows "listMatch (i @ g @ r) = None"
proof -
  obtain c g' where g: "g = c # g'" and c: "\<not> whiteSpaceClass c" "c \<notin> set markers"
    using assms(2) by (cases g) (auto simp: stableGlyph_def)
  have "dropWhile whiteSpaceClass (i @ g @ r) = c # g' @ r"
    using assms(1) c(1) by (simp add: g list_all_iff dropWhile_append2)
  then show ?thesis using c(2) by (simp add: listMatch_eq)
qed

lemma stableTable_customBullet: "stableTable glyphs \<Longrightarrow> stableGlyph (customBullet glyphs level)"
  by (simp add: stableTable_def customBullet_cases)

section \<open>Nesting level\<close>

text \<open>
  Claim C1. For every line recognised as a list item, the level is one, plus the number
  of tabs in the captured indentation, plus half the number of its other code units,
  rounded down; any rearrangement of the indentation gives the same level. The lines
  \<^verbatim>\<open>"- a"\<close>, \<^verbatim>\<open>"  - a"\<close>, \<^verbatim>\<open>"    - a"\<close>, \<^verbatim>\<open>"\t- a"\<close>, \<^verbatim>\<open>"\t\t- a"\<close> and \<^verbatim>\<open>"   - a"\<close> have
  the levels 1, 2, 3, 2, 3 and 2.
\<close>

theorem nesting_level_formula:
  "(listMatch lineText = Some m \<longrightarrow>
      calcLevel (indent m) =
        1 + length (filter (\<lambda>c. c = TAB) (indent m)) +
        length (filter (\<lambda>c. c \<noteq> TAB) (indent m)) div 2 \<and>
      (\<forall>p. mset p = mset (indent m) \<longrightarrow> calcLevel p = calcLevel (indent m))) \<and>
   lineLevel (js ''- a'') = Some 1 \<and>
   lineLevel (js ''  - a'') = Some 2 \<and>
   lineLevel (js ''    - a'') = Some 3 \<and>
   lineLevel (TAB # js ''- a'') = Some 2 \<and>
   lineLevel (TAB # TAB # js ''- a'') = Some 3 \<and>
   lineLevel (js ''   - a'') = Some 2"
proof -
  have general: "calcLevel (indent m) =
        1 + length (filter (\<lambda>c. c = TAB) (indent m)) +
        length (filter (\<lambda>c. c \<noteq> TAB) (indent m)) div 2"
    by (rule calcLevel_formula)
  have perm: "\<forall>p. mset p = mset (indent m) \<longrightarrow> calcLevel p = calcLevel (indent m)"
    using calcLevel_mset by blast
  have e1: "lineLevel (js ''- a'') = Some 1"
    by (simp add: lineLevel_def listMatch_eq calcLevel_def class_defs)
  have e2: "lineLevel (js ''  - a'') = Some 2"
    by (simp add: lineLevel_def listMatch_eq calcLevel_def class_defs)
  have e3: "lineLevel (js ''    - a'') = Some 3"
    by (simp add: lineLevel_def listMatch_eq calcLevel_def class_defs)
  have e4: "lineLevel (TAB # js ''- a'') = Some 2"
    by (simp add: lineLevel_def listMatch_eq calcLevel_def class_defs)
  have e5: "lineLevel (TAB # TAB # js ''- a'') = Some 3"
    by (simp add: lineLevel_def listMatch_eq calcLevel_def class_defs)
  have e6: "lineLevel (js ''   - a'') = Some 2"
    by (simp add: lineLevel_def listMatch_eq calcLevel_def class_defs)
  show ?thesis
    by (intro conjI impI) (rule general perm e1 e2 e3 e4 e5 e6)+
qed

theorem nesting_level_formula_witness:
  "listMatch (0x0020 # TAB # js '' - a'') =
     Some \<lparr>indent = [0x0020, TAB, 0x0020], bullet = 0x002D, space = [0x0020], content = [0x0061]\<rparr> \<and>
   calcLevel [0x0020, TAB, 0x0020] = 3 \<and>
   calcLevel [TAB, 0x0020, 0x0020] = calcLevel [0x0020, TAB, 0x0020]"
proof -
  let ?m = "\<lparr>indent = [0x0020, TAB, 0x0020], bullet = 0x002D, space = [0x0020],
             content = [0x0061]\<rparr>"
  have h: "listMatch (0x0020 # TAB # js '' - a'') = Some ?m"
    by (simp add: listMatch_eq class_defs)
  have a: "calcLevel (indent ?m) =
        1 + length (filter (\<lambda>c. c = TAB) (indent ?m)) +
        length (filter (\<lambda>c. c \<noteq> TAB) (indent ?m)) div 2"
    and b: "\<forall>p. mset p = mset (indent ?m) \<longrightarrow> calcLevel p = calcLevel (indent ?m)"
  proof -
    have "listMatch (0x0020 # TAB # js '' - a'') = Some ?m \<longrightarrow>
        calcLevel (indent ?m) =
          1 + length (filter (\<lambda>c. c = TAB) (indent ?m)) +
          length (filter (\<lambda>c. c \<noteq> TAB) (indent ?m)) div 2 \<and>
        (\<forall>p. mset p = mset (indent ?m) \<longrightarrow> calcLevel p = calcLevel (indent ?m))"
      using nesting_level_formula [of "0x0020 # TAB # js '' - a''" ?m] by (rule conjunct1)
    then show "calcLevel (indent ?m) =
          1 + length (filter (\<lambda>c. c = TAB) (indent ?m)) +
          length (filter (\<lambda>c. c \<noteq> TAB) (indent ?m)) div 2"
      and "\<forall>p. mset p = mset (indent ?m) \<longrightarrow> calcLevel p = calcLevel (indent ?m)"
      using h by blast+
  qed
  have c: "calcLevel [0x0020, TAB, 0x0020] = 3"
    using a by (simp add: TAB_def)
  have "mset [TAB, 0x0020, 0x0020] = mset (indent ?m) \<longrightarrow>
      calcLevel [TAB, 0x0020, 0x0020] = calcLevel (indent ?m)"
    using b by (rule spec)
  moreover have "mset [TAB, 0x0020, 0x0020] = mset (indent ?m)"
    by simp
  ultimately have d: "calcLevel [TAB, 0x0020, 0x0020] = calcLevel [0x0020, TAB, 0x0020]"
    by simp
  show ?thesis
    by (intro conjI) (rule h c d)+
qed

section \<open>Recognition\<close>

text \<open>
  Claim C2, as stated: a line is recognised and rewritten exactly when it is a run of
  spaces and tabs, one of the three markers, a non-empty run of white space and any
  rest. This fails: the line made of a no-break space (U+00A0) followed by \<^verbatim>\<open>"- a"\<close> is
  rewritten, and its indentation is neither a space nor a tab.
\<close>

theorem recognized_beyond_space_tab_counterexample:
  "is_NewLine (processLine DEFAULT_SETTINGS (0x00A0 # js ''- a'') (0x00A0 # js ''- a'')) \<and>
   \<not> matchesPattern spaceOrTab (0x00A0 # js ''- a'')"
  by (simp add: processLine_def listMatch_eq matchesPattern_spaceOrTab DEFAULT_SETTINGS_def
      class_defs)

text \<open>
  Claim C2, amended: with the plugin enabled, a line is recognised and rewritten exactly
  when it is a run of white space of the class \<^verbatim>\<open>\s\<close> (spaces and tabs among it), one
  of the three markers, a non-empty run of white space and any rest.
\<close>

theorem recognized_iff_whitespace_pattern:
  "(is_NewLine (processLine settings line lineText) \<longleftrightarrow>
      enabled settings \<and> matchesPattern whiteSpaceClass lineText) \<and>
   (matchesPattern whiteSpaceClass lineText \<longleftrightarrow>
      (\<exists>i b sp rest. lineText = i @ b # sp @ rest \<and> list_all whiteSpaceClass i \<and>
         b \<in> set markers \<and> sp \<noteq> [] \<and> list_all whiteSpaceClass sp))"
proof -
  have "is_NewLine (processLine settings line lineText) \<longleftrightarrow>
      enabled settings \<and> listMatch lineText \<noteq> None"
    by (cases "listMatch lineText") (simp_all add: processLine_def Let_def)
  then have "is_NewLine (processLine settings line lineText) \<longleftrightarrow>
      enabled settings \<and> matchesPattern whiteSpaceClass lineText"
    using listMatch_iff_pattern [of lineText] by blast
  moreover have "matchesPattern whiteSpaceClass lineText \<longleftrightarrow>
      (\<exists>i b sp rest. lineText = i @ b # sp @ rest \<and> list_all whiteSpaceClass i \<and>
         b \<in> set markers \<and> sp \<noteq> [] \<and> list_all whiteSpaceClass sp)"
    by (rule matchesPattern_shape) (rule marker_not_whiteSpace)
  ultimately show ?thesis by blast
qed

theorem recognized_iff_whitespace_pattern_witness:
  "is_NewLine (processLine DEFAULT_SETTINGS (js ''  * x'') (js ''  * x'')) \<and>
   enabled DEFAULT_SETTINGS \<and> matchesPattern whiteSpaceClass (js ''  * x'')"
proof -
  have "matchesPattern whiteSpaceClass (js ''  * x'')"
    by (simp add: matchesPattern_whiteSpace class_defs)
  moreover have "enabled DEFAULT_SETTINGS"
    by (simp add: DEFAULT_SETTINGS_def)
  ultimately show ?thesis
    using recognized_iff_whitespace_pattern [of DEFAULT_SETTINGS "js ''  * x''" "js ''  * x''"]
    by blast
qed

section \<open>Glyph selection\<close>

text \<open>
  Claim C3. The glyph put in place of the marker is chosen by the level: \<open>level1\<close> to
  \<open>level4\<close> for the levels 1 to 4, and \<open>level5\<close> for level 5 and above and for any other
  value; a matched line is rebuilt with the glyph of its own level.
\<close>

theorem glyph_selected_by_level:
  "customBullet settings 1 = level1 settings \<and>
   customBullet settings 2 = level2 settings \<and>
   customBullet settings 3 = level3 settings \<and>
   customBullet settings 4 = level4 settings \<and>
   (5 \<le> level \<longrightarrow> customBullet settings level = level5 settings) \<and>
   (level \<notin> {1, 2, 3, 4} \<longrightarrow> customBullet settings level = level5 settings) \<and>
   (enabled settings \<and> listMatch lineText = Some m \<longrightarrow>
      processLine settings line lineText =
        NewLine (indent m @ customBullet settings (calcLevel (indent m)) @ space m @ content m))"
  by (simp add: customBullet_cases processLine_Some)

theorem glyph_selected_by_level_witness:
  "(5::nat) \<le> 7 \<and> (7::nat) \<notin> {1, 2, 3, 4} \<and> customBullet DEFAULT_SETTINGS 7 = [0x2043] \<and>
   enabled DEFAULT_SETTINGS \<and>
   listMatch (js ''  - a'') =
     Some \<lparr>indent = js ''  '', bullet = 0x002D, space = js '' '', content = js ''a''\<rparr> \<and>
   processLine DEFAULT_SETTINGS (js ''  - a'') (js ''  - a'') =
     NewLine (js ''  '' @ [0x25E6] @ js '' a'')"
proof -
  let ?m = "\<lparr>indent = js ''  '', bullet = 0x002D, space = js '' '', content = js ''a''\<rparr>"
  have h: "listMatch (js ''  - a'') = Some ?m"
    by (simp add: listMatch_eq class_defs)
  have e: "enabled DEFAULT_SETTINGS"
    by (simp add: DEFAULT_SETTINGS_def)
  have l: "calcLevel (js ''  '') = 2"
    by (simp add: calcLevel_def class_defs)
  have "customBullet DEFAULT_SETTINGS 7 = level5 DEFAULT_SETTINGS"
    and "customBullet DEFAULT_SETTINGS 2 = level2 DEFAULT_SETTINGS"
    and "processLine DEFAULT_SETTINGS (js ''  - a'') (js ''  - a'') =
      NewLine (indent ?m @ customBullet DEFAULT_SETTINGS (calcLevel (indent ?m)) @
        space ?m @ content ?m)"
    using glyph_selected_by_level [of DEFAULT_SETTINGS 7 "js ''  - a''" ?m "js ''  - a''"] h e
    by simp_all
  then show ?thesis using h e l by (simp add: DEFAULT_SETTINGS_def js_def)
qed

section \<open>The rebuilt line\<close>

text \<open>
  The rebuilt string is the captured indentation, the glyph of the line's level, the
  captured separator and the captured content. On a line that holds no line terminator
  the four captures make up the whole line, so there the output differs from the input
  in the one marker character only; with \<open>level2\<close> the glyph U+25E6, \<^verbatim>\<open>"  - task [ ]"\<close>
  becomes the same line with U+25E6 in place of the dash.
\<close>

lemma single_line_keeps_all_but_marker:
  "(listMatch lineText = Some m \<longrightarrow>
      rewrite lineText glyphs True =
        indent m @ customBullet glyphs (calcLevel (indent m)) @ space m @ content m \<and>
      bullet m \<in> set markers \<and>
      (singleLine lineText \<longrightarrow> lineText = indent m @ [bullet m] @ space m @ content m)) \<and>
   (level2 glyphs = [0x25E6] \<longrightarrow>
      rewrite (js ''  - task [ ]'') glyphs True = js ''  '' @ [0x25E6] @ js '' task [ ]'')"
proof -
  have ex: "rewrite (js ''  - task [ ]'') glyphs True = js ''  '' @ [0x25E6] @ js '' task [ ]''"
    if "level2 glyphs = [0x25E6]"
  proof -
    let ?m = "\<lparr>indent = js ''  '', bullet = 0x002D, space = js '' '',
               content = js ''task [ ]''\<rparr>"
    have "listMatch (js ''  - task [ ]'') = Some ?m"
      by (simp add: listMatch_eq class_defs)
    then have "rewrite (js ''  - task [ ]'') glyphs True =
        indent ?m @ customBullet glyphs (calcLevel (indent ?m)) @ space ?m @ content ?m"
      by (rule rewrite_Some)
    moreover have "calcLevel (indent ?m) = 2"
      by (simp add: calcLevel_def class_defs)
    ultimately show ?thesis
      using that by (simp add: customBullet_cases js_def)
  qed
  have gen: "rewrite lineText glyphs True =
        indent m @ customBullet glyphs (calcLevel (indent m)) @ space m @ content m \<and>
      bullet m \<in> set markers \<and>
      (singleLine lineText \<longrightarrow> lineText = indent m @ [bullet m] @ space m @ content m)"
    if "listMatch lineText = Some m"
    using that rewrite_Some [of lineText m glyphs] listMatch_bullet [of lineText m]
      listMatch_singleLine [of lineText m]
    by simp
  show ?thesis using ex gen by blast
qed

text \<open>
  Claim C4. For every matched line the output is the indentation, the glyph, the
  separator and the content of the line, each unchanged, so that only the marker
  character is replaced. \<open>processLine\<close> does not keep this on a matched line whose
  content holds a line terminator, because \<^verbatim>\<open>(.*)\<close> stops in front of it and the pattern
  has no \<^verbatim>\<open>$\<close>. The line \<^verbatim>\<open>"- a"\<close>, U+2028, \<^verbatim>\<open>"b"\<close> holds neither LF nor CR and is
  matched; replacing its marker alone gives U+2022, \<^verbatim>\<open>" a"\<close>, U+2028, \<^verbatim>\<open>"b"\<close>, but the
  output is U+2022, \<^verbatim>\<open>" a"\<close>: the line separator and the \<^verbatim>\<open>"b"\<close> after it are lost.
\<close>

theorem text_after_line_separator_dropped:
  "list_all (\<lambda>c. c \<noteq> 0x000A \<and> c \<noteq> 0x000D) (js ''- a'' @ [0x2028] @ js ''b'') \<and>
   listMatch (js ''- a'' @ [0x2028] @ js ''b'') =
     Some \<lparr>indent = [], bullet = 0x002D, space = js '' '', content = js ''a''\<rparr> \<and>
   processLine DEFAULT_SETTINGS (js ''- a'' @ [0x2028] @ js ''b'') (js ''- a'' @ [0x2028] @ js ''b'') =
     NewLine ([0x2022] @ js '' a'') \<and>
   rewrite (js ''- a'' @ [0x2028] @ js ''b'') DEFAULT_SETTINGS True = [0x2022] @ js '' a'' \<and>
   rewrite (js ''- a'' @ [0x2028] @ js ''b'') DEFAULT_SETTINGS True \<noteq>
     [0x2022] @ js '' a'' @ [0x2028] @ js ''b''"
proof -
  let ?s = "js ''- a'' @ [0x2028] @ js ''b''"
  let ?m = "\<lparr>indent = [], bullet = 0x002D, space = js '' '', content = js ''a''\<rparr>"
  have n: "list_all (\<lambda>c. c \<noteq> 0x000A \<and> c \<noteq> 0x000D) ?s"
    by (simp add: js_def)
  have h: "listMatch ?s = Some ?m"
    by (simp add: listMatch_eq class_defs)
  have l: "calcLevel [] = 1"
    by (simp add: calcLevel_def)
  have c: "customBullet DEFAULT_SETTINGS 1 = [0x2022]"
    by (simp add: customBullet_cases DEFAULT_SETTINGS_def)
  have e: "enabled DEFAULT_SETTINGS"
    by (simp add: DEFAULT_SETTINGS_def)
  have p: "processLine DEFAULT_SETTINGS ?s ?s = NewLine ([0x2022] @ js '' a'')"
    using processLine_Some [OF e h, of ?s] l c by (simp add: js_def)
  have r: "rewrite ?s DEFAULT_SETTINGS True = [0x2022] @ js '' a''"
    using rewrite_Some [OF h, of DEFAULT_SETTINGS] l c by (simp add: js_def)
  have d: "rewrite ?s DEFAULT_SETTINGS True \<noteq> [0x2022] @ js '' a'' @ [0x2028] @ js ''b''"
    unfolding r by (simp add: js_def)
  show ?thesis
    by (intro conjI) (rule n h p r d)+
qed

section \<open>Lines left alone\<close>

text \<open>
  Claim C5. With the plugin enabled and any glyph table, a line that does not match
  \<^verbatim>\<open>^\s*(-|\*|\+)\s+\<close> is returned unchanged; so are the empty line, the horizontal rule
  \<^verbatim>\<open>"---"\<close>, a numbered item and plain text.
\<close>

theorem unmatched_line_unchanged:
  "(\<not> matchesPattern whiteSpaceClass lineText \<longrightarrow>
      rewrite lineText glyphs True = lineText \<and>
      processLine (glyphs\<lparr>enabled := True\<rparr>) line lineText = SameLine line) \<and>
   rewrite [] glyphs True = [] \<and>
   rewrite (js ''---'') glyphs True = js ''---'' \<and>
   rewrite (js ''1. item'') glyphs True = js ''1. item'' \<and>
   rewrite (js ''plain text'') glyphs True = js ''plain text''"
proof -
  have gen: "rewrite lineText glyphs True = lineText \<and>
      processLine (glyphs\<lparr>enabled := True\<rparr>) line lineText = SameLine line"
    if "\<not> matchesPattern whiteSpaceClass lineText"
  proof -
    have "listMatch lineText = None"
      using that listMatch_iff_pattern [of lineText] by blast
    then show ?thesis by (simp add: rewrite_None processLine_None)
  qed
  have e0: "rewrite [] glyphs True = []"
    by (rule rewrite_None) (simp add: listMatch_eq)
  have e1: "rewrite (js ''---'') glyphs True = js ''---''"
    by (rule rewrite_None) (simp add: listMatch_eq class_defs)
  have e2: "rewrite (js ''1. item'') glyphs True = js ''1. item''"
    by (rule rewrite_None) (simp add: listMatch_eq class_defs)
  have e3: "rewrite (js ''plain text'') glyphs True = js ''plain text''"
    by (rule rewrite_None) (simp add: listMatch_eq class_defs)
  show ?thesis using gen e0 e1 e2 e3 by blast
qed

theorem unmatched_line_unchanged_witness:
  "\<not> matchesPattern whiteSpaceClass (js '' -x'') \<and>
   rewrite (js '' -x'') DEFAULT_SETTINGS True = js '' -x'' \<and>
   processLine (DEFAULT_SETTINGS\<lparr>enabled := True\<rparr>) (js '' -x'') (js '' -x'') =
     SameLine (js '' -x'')"
proof -
  have h: "\<not> matchesPattern whiteSpaceClass (js '' -x'')"
    by (simp add: matchesPattern_whiteSpace class_defs)
  show ?thesis
    using unmatched_line_unchanged [of "js '' -x''" DEFAULT_SETTINGS "js '' -x''"] h by blast
qed

text \<open>
  Claim C6. With the flag off, every line is returned unchanged, whatever the glyph
  table: \<open>processLine\<close> hands back the line object it was given.
\<close>

theorem disabled_returns_input:
  "rewrite lineText glyphs False = lineText \<and>
   processLine (glyphs\<lparr>enabled := False\<rparr>) line lineText = SameLine line \<and>
   (\<not> enabled settings \<longrightarrow> processLine settings line lineText = SameLine line)"
  by (simp add: rewrite_disabled processLine_disabled)

theorem disabled_returns_input_witness:
  "\<not> enabled (DEFAULT_SETTINGS\<lparr>enabled := False\<rparr>) \<and>
   processLine (DEFAULT_SETTINGS\<lparr>enabled := False\<rparr>) (js ''- a'') (js ''- a'') =
     SameLine (js ''- a'') \<and>
   rewrite (js ''- a'') DEFAULT_SETTINGS False = js ''- a''"
  using disabled_returns_input
    [of "js ''- a''" DEFAULT_SETTINGS "js ''- a''" "DEFAULT_SETTINGS\<lparr>enabled := False\<rparr>"]
  by simp

section \<open>Rewriting twice\<close>

text \<open>
  Claim C7, as stated: for every line and every glyph table, rewriting twice gives what
  rewriting once gives. This fails when a glyph can itself be read as the start of a
  list item: with \<open>level1\<close> the two code units \<^verbatim>\<open>"* "\<close>, the line \<^verbatim>\<open>"- a"\<close> becomes
  \<^verbatim>\<open>"*  a"\<close>, which matches again and becomes \<^verbatim>\<open>"*   a"\<close>.
\<close>

theorem rewrite_twice_counterexample:
  "rewrite (rewrite (js ''- a'') (DEFAULT_SETTINGS\<lparr>level1 := js ''* ''\<rparr>) True)
       (DEFAULT_SETTINGS\<lparr>level1 := js ''* ''\<rparr>) True \<noteq>
     rewrite (js ''- a'') (DEFAULT_SETTINGS\<lparr>level1 := js ''* ''\<rparr>) True"
proof -
  let ?g = "DEFAULT_SETTINGS\<lparr>level1 := js ''* ''\<rparr>"
  have l: "calcLevel [] = 1"
    by (simp add: calcLevel_def)
  have b: "customBullet ?g 1 = js ''* ''"
    by (simp add: customBullet_cases)
  have "listMatch (js ''- a'') =
      Some \<lparr>indent = [], bullet = 0x002D, space = js '' '', content = js ''a''\<rparr>"
    by (simp add: listMatch_eq class_defs)
  then have once: "rewrite (js ''- a'') ?g True = js ''*  a''"
    using l b by (simp add: rewrite_Some js_def)
  have "listMatch (js ''*  a'') =
      Some \<lparr>indent = [], bullet = 0x002A, space = js ''  '', content = js ''a''\<rparr>"
    by (simp add: listMatch_eq class_defs)
  then have twice: "rewrite (js ''*  a'') ?g True = js ''*   a''"
    using l b by (simp add: rewrite_Some js_def)
  show ?thesis
    unfolding once twice by (simp add: js_def)
qed

text \<open>
  Claim C7, amended: for every line and every glyph table whose five glyphs are each
  non-empty and begin with a code unit that is neither white space nor one of the
  markers \<^verbatim>\<open>-\<close>, \<^verbatim>\<open>*\<close>, \<^verbatim>\<open>+\<close> (the default table is one), the output of a rewrite does
  not match the detection pattern, and rewriting twice gives what rewriting once gives.
\<close>

theorem rewrite_twice_stable:
  assumes "stableTable glyphs"
  shows "listMatch (rewrite lineText glyphs True) = None \<and>
         rewrite (rewrite lineText glyphs True) glyphs True = rewrite lineText glyphs True"
proof -
  have none: "listMatch (rewrite lineText glyphs True) = None"
  proof (cases "listMatch lineText")
    case None
    then show ?thesis by (simp add: rewrite_None)
  next
    case (Some m)
    have "listMatch (indent m @ customBullet glyphs (calcLevel (indent m)) @
        (space m @ content m)) = None"
      using listMatch_indent [OF Some] stableTable_customBullet [OF assms]
      by (rule listMatch_stableGlyph)
    then show ?thesis by (simp add: rewrite_Some [OF Some])
  qed
  then have "rewrite (rewrite lineText glyphs True) glyphs True = rewrite lineText glyphs True"
    by (rule rewrite_None)
  with none show ?thesis by simp
qed

theorem rewrite_twice_stable_witness:
  "stableTable DEFAULT_SETTINGS \<and>
   rewrite (js ''  - a'') DEFAULT_SETTINGS True = js ''  '' @ [0x25E6] @ js '' a'' \<and>
   listMatch (rewrite (js ''  - a'') DEFAULT_SETTINGS True) = None \<and>
   rewrite (rewrite (js ''  - a'') DEFAULT_SETTINGS True) DEFAULT_SETTINGS True =
     rewrite (js ''  - a'') DEFAULT_SETTINGS True"
proof -
  have h: "stableTable DEFAULT_SETTINGS"
    by (simp add: stableTable_def stableGlyph_def DEFAULT_SETTINGS_def class_defs)
  have "listMatch (js ''  - a'') =
      Some \<lparr>indent = js ''  '', bullet = 0x002D, space = js '' '', content = js ''a''\<rparr>"
    by (simp add: listMatch_eq class_defs)
  moreover have "calcLevel (js ''  '') = 2"
    by (simp add: calcLevel_def class_defs)
  moreover have "customBullet DEFAULT_SETTINGS 2 = [0x25E6]"
    by (simp add: customBullet_cases DEFAULT_SETTINGS_def)
  ultimately have r: "rewrite (js ''  - a'') DEFAULT_SETTINGS True =
      js ''  '' @ [0x25E6] @ js '' a''"
    by (simp add: rewrite_Some js_def)
  show ?thesis
    using rewrite_twice_stable [OF h, of "js ''  - a''"] h r by simp
qed

section \<open>Glyphs entered in the settings tab\<close>

text \<open>
  Claim C8. A value entered in one of the five glyph fields is stored as it is when it
  is not empty, and the default glyph of that level is stored in its place exactly when
  it is the empty string.
\<close>

theorem empty_glyph_replaced_by_default:
  "level1 (onChangeLevel1 settings v) = (if v = [] then level1 DEFAULT_SETTINGS else v) \<and>
   level2 (onChangeLevel2 settings v) = (if v = [] then level2 DEFAULT_SETTINGS else v) \<and>
   level3 (onChangeLevel3 settings v) = (if v = [] then level3 DEFAULT_SETTINGS else v) \<and>
   level4 (onChangeLevel4 settings v) = (if v = [] then level4 DEFAULT_SETTINGS else v) \<and>
   level5 (onChangeLevel5 settings v) = (if v = [] then level5 DEFAULT_SETTINGS else v)"
  by (simp add: onChangeLevel1_def onChangeLevel2_def onChangeLevel3_def onChangeLevel4_def
      onChangeLevel5_def orElse_def DEFAULT_SETTINGS_def)

section \<open>The default branch\<close>

text \<open>
  Claim C10. For every matched line the level is at least 1, so the \<open>default\<close> branch of
  the \<open>switch\<close> is taken exactly when the level is 5 or more; the value 0, which would
  also fall to \<open>default\<close>, never arises.
\<close>

theorem default_branch_iff_level_ge_5:
  "listMatch lineText = Some m \<Longrightarrow>
   1 \<le> calcLevel (indent m) \<and>
   (switchLevel (calcLevel (indent m)) = Default \<longleftrightarrow> 5 \<le> calcLevel (indent m)) \<and>
   switchLevel 0 = Default"
proof -
  have "1 \<le> calcLevel (indent m)"
    by (simp add: calcLevel_formula)
  moreover have "switchLevel n = Default \<longleftrightarrow> 5 \<le> n" if "1 \<le> n" for n
    using that by (auto simp: switchLevel_def)
  moreover have "switchLevel 0 = Default"
    by (simp add: switchLevel_def)
  ultimately show ?thesis by blast
qed

theorem default_branch_iff_level_ge_5_witness:
  "listMatch (TAB # TAB # TAB # TAB # js ''- a'') =
     Some \<lparr>indent = [TAB, TAB, TAB, TAB], bullet = 0x002D, space = js '' '', content = js ''a''\<rparr> \<and>
   calcLevel [TAB, TAB, TAB, TAB] = 5 \<and>
   switchLevel (calcLevel [TAB, TAB, TAB, TAB]) = Default"
proof -
  let ?s = "TAB # TAB # TAB # TAB # js ''- a''"
  let ?m = "\<lparr>indent = [TAB, TAB, TAB, TAB], bullet = 0x002D, space = js '' '',
             content = js ''a''\<rparr>"
  have h: "listMatch ?s = Some ?m"
    by (simp add: listMatch_eq class_defs)
  have l: "calcLevel [TAB, TAB, TAB, TAB] = 5"
    by (simp add: calcLevel_def)
  show ?thesis
    using default_branch_iff_level_ge_5 [OF h] h l by simp
qed

end
